theory Spec2Isabelle
  imports Main "HOL-Library.AList"
begin

section \<open>JavaScript arrays\<close>

text \<open>
  The component of \<^verbatim>\<open>src/components/directives/group.tsx\<close> receives the group as an
  array \<^verbatim>\<open>Directive[]\<close> and reports every change as a whole new array. An array is
  modelled as the list of its elements; an element is \<open>Some d\<close> for a directive \<open>d\<close> and
  \<open>None\<close> for \<^verbatim>\<open>undefined\<close>. A well-typed \<^verbatim>\<open>Directive[]\<close> holds \<open>Some\<close> elements only;
  \<open>None\<close> appears when a handler reads or writes beyond the end. Indices are
  \<^verbatim>\<open>number\<close>s in the source and integers here.
\<close>

type_synonym 'd js_array = "'d option list"

text \<open>\<^verbatim>\<open>xs[i]\<close> as an expression: \<^verbatim>\<open>undefined\<close> outside the array.\<close>

definition js_get :: "'d js_array \<Rightarrow> int \<Rightarrow> 'd option" where
  "js_get xs i = (if 0 \<le> i \<and> i < int (length xs) then xs ! nat i else None)"

text \<open>
  \<^verbatim>\<open>xs[i] = v\<close> as a statement. At or beyond the end the array grows, the positions
  in between reading as \<^verbatim>\<open>undefined\<close>. A negative \<open>i\<close> creates a named property and
  leaves length and elements alone; no handler reads such a property (each one starts
  from a fresh copy of the elements), so the model keeps the elements only.
\<close>

definition js_set :: "'d js_array \<Rightarrow> int \<Rightarrow> 'd option \<Rightarrow> 'd js_array" where
  "js_set xs i v =
     (if i < 0 then xs
      else if i < int (length xs) then xs[nat i := v]
      else xs @ replicate (nat i - length xs) None @ [v])"

text \<open>
  \<^verbatim>\<open>xs.splice(start, deleteCount, ...items)\<close>: a negative start counts from the end,
  and start and count are clamped to the array.
\<close>

definition splice_start :: "nat \<Rightarrow> int \<Rightarrow> nat" where
  "splice_start len start =
     (if start < 0 then nat (max (int len + start) 0) else nat (min start (int len)))"

definition js_splice :: "'a list \<Rightarrow> int \<Rightarrow> nat \<Rightarrow> 'a list \<Rightarrow> 'a list" where
  "js_splice xs start deleteCount items =
     (let s = splice_start (length xs) start;
          d = min deleteCount (length xs - s)
      in take s xs @ items @ drop (s + d) xs)"

text \<open>\<^verbatim>\<open>xs.filter((_, i) => i !== index)\<close>.\<close>

definition filter_index :: "'a list \<Rightarrow> int \<Rightarrow> 'a list" where
  "filter_index xs index =
     map snd (filter (\<lambda>(i, _). int i \<noteq> index) (enumerate 0 xs))"


section \<open>The group list editor\<close>

text \<open>
  The state of one mounted \<^verbatim>\<open>GroupDirectiveComponent\<close>: its four \<^verbatim>\<open>useState\<close> cells and
  the \<^verbatim>\<open>shouldScrollToNew\<close> ref. \<open>None\<close> is \<^verbatim>\<open>null\<close>.
\<close>

record group_state =
  isExpanded :: bool
  draggedIndex :: "int option"
  dragOverIndex :: "int option"
  deleteConfirmIndex :: "int option"
  shouldScrollToNew :: bool

definition initial_state :: group_state where
  "initial_state =
     \<lparr>isExpanded = True, draggedIndex = None, dragOverIndex = None,
      deleteConfirmIndex = None, shouldScrollToNew = False\<rparr>"

text \<open>
  A handler takes the state and the \<^verbatim>\<open>group\<close> prop and returns the new state together
  with the array it passes to \<^verbatim>\<open>onChange\<close>, or \<open>None\<close> when it does not call \<^verbatim>\<open>onChange\<close>.
\<close>

type_synonym 'd outcome = "group_state \<times> 'd js_array option"

datatype direction = Up | Down

definition handleDirectiveChange ::
    "group_state \<Rightarrow> 'd js_array \<Rightarrow> int \<Rightarrow> 'd \<Rightarrow> 'd outcome" where
  "handleDirectiveChange st grp index updatedDirective =
     (st, Some (js_set grp index (Some updatedDirective)))"

text \<open>\<open>index = None\<close> is the call without an index.\<close>

definition addDirective ::
    "group_state \<Rightarrow> 'd js_array \<Rightarrow> 'd \<Rightarrow> int option \<Rightarrow> 'd outcome" where
  "addDirective st grp directive index =
     (let scroll = (case index of None \<Rightarrow> True | Some k \<Rightarrow> k \<ge> int (length grp));
          updatedGroup = (case index of
                            Some k \<Rightarrow> js_splice grp k 0 [Some directive]
                          | None \<Rightarrow> grp @ [Some directive])
      in (st\<lparr>shouldScrollToNew := scroll\<rparr>, Some updatedGroup))"

definition removeDirective :: "group_state \<Rightarrow> 'd js_array \<Rightarrow> int \<Rightarrow> 'd outcome" where
  "removeDirective st grp index =
     (st\<lparr>deleteConfirmIndex := None\<rparr>, Some (filter_index grp index))"

definition handleDeleteClick :: "group_state \<Rightarrow> int \<Rightarrow> group_state" where
  "handleDeleteClick st index = st\<lparr>deleteConfirmIndex := Some index\<rparr>"

definition cancelDelete :: "group_state \<Rightarrow> 'd js_array \<Rightarrow> 'd outcome" where
  "cancelDelete st grp = (st\<lparr>deleteConfirmIndex := None\<rparr>, None)"

text \<open>
  The Delete button of the confirmation modal, \<^verbatim>\<open>() => removeDirective(deleteConfirmIndex)\<close>.
  The modal is rendered only while \<^verbatim>\<open>deleteConfirmIndex !== null\<close>, so without a pending
  index there is no button and nothing happens.
\<close>

definition confirmDelete :: "group_state \<Rightarrow> 'd js_array \<Rightarrow> 'd outcome" where
  "confirmDelete st grp =
     (case deleteConfirmIndex st of
        None \<Rightarrow> (st, None)
      | Some i \<Rightarrow> removeDirective st grp i)"

text \<open>
  The swap \<^verbatim>\<open>[a[index], a[newIndex]] = [a[newIndex], a[index]]\<close> reads both elements
  first, then writes \<^verbatim>\<open>a[index]\<close>, then \<^verbatim>\<open>a[newIndex]\<close>.
\<close>

definition moveDirective ::
    "group_state \<Rightarrow> 'd js_array \<Rightarrow> int \<Rightarrow> direction \<Rightarrow> 'd outcome" where
  "moveDirective st grp index dir =
     (let newIndex = (if dir = Up then index - 1 else index + 1)
      in if newIndex < 0 \<or> newIndex \<ge> int (length grp) then (st, None)
         else
           let fromNew = js_get grp newIndex;
               fromOld = js_get grp index;
               updatedGroup = js_set (js_set grp index fromNew) newIndex fromOld
           in (st, Some updatedGroup))"

definition handleDragStart :: "group_state \<Rightarrow> int \<Rightarrow> group_state" where
  "handleDragStart st index = st\<lparr>draggedIndex := Some index\<rparr>"

definition handleDragOver :: "group_state \<Rightarrow> int \<Rightarrow> group_state" where
  "handleDragOver st index = st\<lparr>dragOverIndex := Some index\<rparr>"

definition handleDragLeave :: "group_state \<Rightarrow> group_state" where
  "handleDragLeave st = st\<lparr>dragOverIndex := None\<rparr>"

definition handleDragEnd :: "group_state \<Rightarrow> group_state" where
  "handleDragEnd st = st\<lparr>draggedIndex := None, dragOverIndex := None\<rparr>"

definition handleDrop :: "group_state \<Rightarrow> 'd js_array \<Rightarrow> int \<Rightarrow> 'd outcome" where
  "handleDrop st grp dropIndex =
     (let cleared = st\<lparr>draggedIndex := None, dragOverIndex := None\<rparr>
      in case draggedIndex st of
           None \<Rightarrow> (cleared, None)
         | Some dragged \<Rightarrow>
             if dragged = dropIndex then (cleared, None)
             else
               let draggedItem = js_get grp dragged;
                   removed = js_splice grp dragged 1 [];
                   insertIndex = (if dragged < dropIndex then dropIndex - 1 else dropIndex);
                   updatedGroup = js_splice removed insertIndex 0 [draggedItem]
               in (cleared, Some updatedGroup))"


section \<open>Removing and inserting by position\<close>

text \<open>
  The two operations in whose words the behaviour of the handlers is described:
  taking the element at a position out of a sequence, and putting an element into a
  sequence so that it ends up at a position.
\<close>

fun remove_at :: "nat \<Rightarrow> 'a list \<Rightarrow> 'a list" where
  "remove_at n [] = []"
| "remove_at 0 (x # xs) = xs"
| "remove_at (Suc n) (x # xs) = x # remove_at n xs"

fun insert_at :: "nat \<Rightarrow> 'a \<Rightarrow> 'a list \<Rightarrow> 'a list" where
  "insert_at 0 v xs = v # xs"
| "insert_at (Suc n) v [] = [v]"
| "insert_at (Suc n) v (x # xs) = x # insert_at n v xs"

section \<open>The simplified parameter editor\<close>

text \<open>
  Parameter values are \<^verbatim>\<open>unknown\<close> in the source. The values that the editor itself
  produces are strings, lists of strings and booleans; \<^verbatim>\<open>undefined\<close> and \<^verbatim>\<open>null\<close> are
  the two values that \<^verbatim>\<open>??\<close> replaces.
\<close>

datatype js_value = Undefined | Null | Str string | Arr "string list" | Bool bool

text \<open>
  A \<^verbatim>\<open>Record<string, unknown>\<close> is the list of its entries in insertion order.
  \<open>AList.update\<close> is the assignment \<^verbatim>\<open>obj[k] = v\<close>: an existing key keeps its place, a new
  one goes to the end. Properties inherited from \<^verbatim>\<open>Object.prototype\<close> are left out.
\<close>

type_synonym params = "(string \<times> js_value) list"

definition js_prop :: "params \<Rightarrow> string \<Rightarrow> js_value" where
  "js_prop ps k = (case map_of ps k of None \<Rightarrow> Undefined | Some v \<Rightarrow> v)"

text \<open>\<^verbatim>\<open>a ?? b\<close>.\<close>

definition nullish_or :: "js_value \<Rightarrow> js_value \<Rightarrow> js_value" where
  "nullish_or a b = (if a = Undefined \<or> a = Null then b else a)"

fun join_comma :: "string list \<Rightarrow> string" where
  "join_comma [] = []"
| "join_comma [s] = s"
| "join_comma (s # t) = s @ '','' @ join_comma t"

text \<open>\<^verbatim>\<open>String(v)\<close>.\<close>

fun js_String :: "js_value \<Rightarrow> string" where
  "js_String Undefined = ''undefined''"
| "js_String Null = ''null''"
| "js_String (Str s) = s"
| "js_String (Arr ss) = join_comma ss"
| "js_String (Bool b) = (if b then ''true'' else ''false'')"

text \<open>
  An optional property \<^verbatim>\<open>p?: T\<close> of an object: the key is absent, or it is present and
  holds \<^verbatim>\<open>undefined\<close>, or it holds a value. The \<^verbatim>\<open>in\<close> operator tells the first two
  apart; reading the property does not.
\<close>

datatype 'a optional = Absent | PresentUndefined | Present 'a

text \<open>
  \<^verbatim>\<open>GroupEditorArgument\<close>: the common fields, and the variant given by \<^verbatim>\<open>type\<close>. The
  variants are dropdown (options, default), text (default, multiline), array (default)
  and boolean (default). The optional flags \<^verbatim>\<open>advanced\<close> and \<^verbatim>\<open>multiline\<close> are only
  tested for truth, so they are booleans here.
\<close>

datatype argument_shape =
    Dropdown "string list" "string optional"
  | Text "string optional" bool
  | Array "string list optional"
  | Boolean "bool optional"

record GroupEditorArgument =
  name :: string
  required :: bool
  description :: "string option"
  advanced :: bool
  shape :: argument_shape

fun map_optional :: "('a \<Rightarrow> 'b) \<Rightarrow> 'a optional \<Rightarrow> 'b optional" where
  "map_optional f Absent = Absent"
| "map_optional f PresentUndefined = PresentUndefined"
| "map_optional f (Present x) = Present (f x)"

text \<open>The property \<^verbatim>\<open>defaultValue\<close> of an argument, as a JavaScript value.\<close>

fun defaultValue :: "argument_shape \<Rightarrow> js_value optional" where
  "defaultValue (Dropdown opts d) = map_optional Str d"
| "defaultValue (Text d m) = map_optional Str d"
| "defaultValue (Array d) = map_optional Arr d"
| "defaultValue (Boolean d) = map_optional Bool d"

text \<open>\<^verbatim>\<open>'defaultValue' in arg\<close> and \<^verbatim>\<open>arg.defaultValue\<close>.\<close>

definition has_defaultValue :: "GroupEditorArgument \<Rightarrow> bool" where
  "has_defaultValue arg = (defaultValue (shape arg) \<noteq> Absent)"

definition read_defaultValue :: "GroupEditorArgument \<Rightarrow> js_value" where
  "read_defaultValue arg =
     (case defaultValue (shape arg) of Present v \<Rightarrow> v | _ \<Rightarrow> Undefined)"

definition is_boolean :: "GroupEditorArgument \<Rightarrow> bool" where
  "is_boolean arg = (case shape arg of Boolean _ \<Rightarrow> True | _ \<Rightarrow> False)"

definition is_text :: "GroupEditorArgument \<Rightarrow> bool" where
  "is_text arg = (case shape arg of Text _ _ \<Rightarrow> True | _ \<Rightarrow> False)"

definition is_array :: "GroupEditorArgument \<Rightarrow> bool" where
  "is_array arg = (case shape arg of Array _ \<Rightarrow> True | _ \<Rightarrow> False)"

record 'd GroupDirective =
  group :: "'d list"

text \<open>
  \<^verbatim>\<open>GroupEditor\<close>. Its \<^verbatim>\<open>helpContent\<close> only renders help text and is left out; the
  metadata is opaque.
\<close>

record ('m, 'd) GroupEditor =
  metadata :: 'm
  arguments :: "GroupEditorArgument list"
  updateDirective :: "params \<Rightarrow> 'd GroupDirective"

text \<open>The state of one mounted \<^verbatim>\<open>CustomGroupEditorComponent\<close>.\<close>

record editor_state =
  showAdvanced :: bool
  initializedRef :: bool

definition initial_editor_state :: editor_state where
  "initial_editor_state = \<lparr>showAdvanced = False, initializedRef = False\<rparr>"

text \<open>
  What a handler does to the outside, in order: it calls the schema's
  \<^verbatim>\<open>updateDirective\<close>, and it reports upward through \<^verbatim>\<open>onChange\<close>. (The wrapper around
  \<^verbatim>\<open>onChange\<close> also writes to the console.)
\<close>

datatype 'd call = UpdateDirective params | OnGroupChange "'d list" params

text \<open>The body of the \<^verbatim>\<open>forEach\<close> in \<^verbatim>\<open>getDefaultParams\<close>, and the loop from the empty object.\<close>

definition add_default :: "params \<Rightarrow> GroupEditorArgument \<Rightarrow> params" where
  "add_default defaults arg =
     (if has_defaultValue arg \<and> read_defaultValue arg \<noteq> Undefined
      then AList.update (name arg) (read_defaultValue arg) defaults
      else defaults)"

definition getDefaultParams :: "GroupEditorArgument list \<Rightarrow> params" where
  "getDefaultParams args = foldl add_default [] args"

text \<open>\<^verbatim>\<open>Object.keys(customParams).length > 0 ? customParams : getDefaultParams()\<close>.\<close>

definition currentParams :: "('m, 'd) GroupEditor \<Rightarrow> params \<Rightarrow> params" where
  "currentParams editorInfo customParams =
     (if customParams \<noteq> [] then customParams else getDefaultParams (arguments editorInfo))"

definition updateParameter ::
    "('m, 'd) GroupEditor \<Rightarrow> params \<Rightarrow> string \<Rightarrow> js_value \<Rightarrow> 'd call list" where
  "updateParameter editorInfo customParams key val =
     (let updatedParams = AList.update key val (currentParams editorInfo customParams);
          updatedDirective = updateDirective editorInfo updatedParams
      in [UpdateDirective updatedParams,
          OnGroupChange (group updatedDirective) updatedParams])"

text \<open>The body of the effect that runs after the first render and when \<^verbatim>\<open>customParams\<close> changes.\<close>

definition autoInitialize ::
    "('m, 'd) GroupEditor \<Rightarrow> params \<Rightarrow> editor_state \<Rightarrow> editor_state \<times> 'd call list" where
  "autoInitialize editorInfo customParams st =
     (if \<not> initializedRef st \<and> customParams = [] then
        let defaultParams = getDefaultParams (arguments editorInfo);
            updatedDirective = updateDirective editorInfo defaultParams
        in (st\<lparr>initializedRef := True\<rparr>,
            [UpdateDirective defaultParams,
             OnGroupChange (group updatedDirective) defaultParams])
      else (st, []))"

text \<open>
  Mounting: the first render starts from the initial state and calls nothing outside;
  the effect runs after it.
\<close>

definition mount :: "('m, 'd) GroupEditor \<Rightarrow> params \<Rightarrow> editor_state \<times> 'd call list" where
  "mount editorInfo customParams = autoInitialize editorInfo customParams initial_editor_state"

definition getDefaultValue :: "GroupEditorArgument \<Rightarrow> js_value" where
  "getDefaultValue arg =
     (if is_boolean arg \<and> has_defaultValue arg then nullish_or (read_defaultValue arg) (Bool False)
      else if is_text arg \<and> has_defaultValue arg then nullish_or (read_defaultValue arg) (Str '''')
      else if is_array arg \<and> has_defaultValue arg then nullish_or (read_defaultValue arg) (Arr [])
      else Str '''')"

text \<open>\<^verbatim>\<open>currentParams[arg.name] ?? getDefaultValue()\<close>.\<close>

definition currentValue ::
    "('m, 'd) GroupEditor \<Rightarrow> params \<Rightarrow> GroupEditorArgument \<Rightarrow> js_value" where
  "currentValue editorInfo customParams arg =
     nullish_or (js_prop (currentParams editorInfo customParams) (name arg))
       (getDefaultValue arg)"

text \<open>What \<^verbatim>\<open>renderArgument\<close> hands to the form control of a field; \<open>None\<close> is \<^verbatim>\<open>null\<close>.\<close>

datatype control =
    Select string "string list"
  | ToggleButtonGroup string
  | TagEditor "string list"
  | TextArea string
  | Input string

definition renderArgument ::
    "('m, 'd) GroupEditor \<Rightarrow> params \<Rightarrow> editor_state \<Rightarrow> GroupEditorArgument \<Rightarrow> control option" where
  "renderArgument editorInfo customParams st arg =
     (let cur = currentValue editorInfo customParams arg
      in if advanced arg \<and> \<not> showAdvanced st then None
         else case shape arg of
                Dropdown opts _ \<Rightarrow> Some (Select (js_String cur) opts)
              | Boolean _ \<Rightarrow> Some (ToggleButtonGroup (js_String cur))
              | Array _ \<Rightarrow> Some (TagEditor (case cur of Arr tags \<Rightarrow> tags | _ \<Rightarrow> []))
              | Text _ multiline \<Rightarrow>
                  Some (if multiline then TextArea (js_String cur) else Input (js_String cur)))"


section \<open>Editor registration\<close>

text \<open>
  The module holds the map \<^verbatim>\<open>groupEditors\<close>. \<^verbatim>\<open>registerDirective\<close> belongs to another
  module; the calls made to it are kept as a list of the metadata passed, each with the
  component it carries.
\<close>

datatype ('m, 'd) component =
    GroupDirectiveComponent
  | CustomGroupEditorComponent "('m, 'd) GroupEditor"

record ('m, 'd) module_state =
  groupEditors :: "string \<rightharpoonup> ('m, 'd) GroupEditor"
  registered :: "('m \<times> ('m, 'd) component) list"

text \<open>After the module is loaded: an empty map, and the group directive registered.\<close>

definition module_loaded :: "'m \<Rightarrow> ('m, 'd) module_state" where
  "module_loaded groupDirectiveMetadata =
     \<lparr>groupEditors = Map.empty,
      registered = [(groupDirectiveMetadata, GroupDirectiveComponent)]\<rparr>"

definition registerGroupEditor ::
    "string \<Rightarrow> ('m, 'd) GroupEditor \<Rightarrow> ('m, 'd) module_state \<Rightarrow> ('m, 'd) module_state" where
  "registerGroupEditor nm editor ms =
     ms\<lparr>groupEditors := (groupEditors ms)(nm \<mapsto> editor),
        registered := registered ms @ [(metadata editor, CustomGroupEditorComponent editor)]\<rparr>"

definition getGroupEditor :: "('m, 'd) module_state \<Rightarrow> string \<Rightarrow> ('m, 'd) GroupEditor option" where
  "getGroupEditor ms nm = groupEditors ms nm"

text \<open>A run of registrations, in the order given.\<close>

definition register_all ::
    "(string \<times> ('m, 'd) GroupEditor) list \<Rightarrow> ('m, 'd) module_state \<Rightarrow> ('m, 'd) module_state" where
  "register_all regs ms = foldl (\<lambda>s (nm, editor). registerGroupEditor nm editor s) ms regs"


section \<open>A sample schema\<close>

text \<open>
  A schema with one dropdown, one array and one boolean field, each with a declared
  default, whose update function lists the parameters as \<open>key=value\<close> directives. It
  serves as the concrete input of the examples below.
\<close>

definition example_arguments :: "GroupEditorArgument list" where
  "example_arguments =
     [\<lparr>name = ''mode'', required = True, description = None, advanced = False,
        shape = Dropdown [''fast'', ''slow''] (Present ''fast'')\<rparr>,
      \<lparr>name = ''tags'', required = False, description = None, advanced = False,
        shape = Array (Present [])\<rparr>,
      \<lparr>name = ''verbose'', required = False, description = None, advanced = True,
        shape = Boolean (Present False)\<rparr>]"

definition example_editor :: "(string, string) GroupEditor" where
  "example_editor =
     \<lparr>metadata = ''example'',
      arguments = example_arguments,
      updateDirective = (\<lambda>ps. \<lparr>group = map (\<lambda>(k, v). k @ ''='' @ js_String v) ps\<rparr>)\<rparr>"


section \<open>Auxiliary facts\<close>

lemma remove_at_take_drop: "remove_at n xs = take n xs @ drop (Suc n) xs"
  by (induction n xs rule: remove_at.induct) simp_all

lemma insert_at_take_drop: "insert_at n v xs = take n xs @ v # drop n xs"
  by (induction n v xs rule: insert_at.induct) simp_all

lemma remove_at_beyond: "length xs \<le> n \<Longrightarrow> remove_at n xs = xs"
  by (simp add: remove_at_take_drop)

lemma length_remove_at: "n < length xs \<Longrightarrow> length (remove_at n xs) = length xs - 1"
  by (simp add: remove_at_take_drop)

lemma nth_remove_at:
  "n < length xs \<Longrightarrow> j < length xs - 1 \<Longrightarrow>
   remove_at n xs ! j = (if j < n then xs ! j else xs ! Suc j)"
  by (auto simp: remove_at_take_drop nth_append min_def)

lemma length_insert_at: "length (insert_at n v xs) = Suc (length xs)"
  by (induction n v xs rule: insert_at.induct) simp_all

lemma nth_insert_at_same: "n \<le> length xs \<Longrightarrow> insert_at n v xs ! n = v"
  by (simp add: insert_at_take_drop nth_append)

lemma remove_at_insert_at: "n \<le> length xs \<Longrightarrow> remove_at n (insert_at n v xs) = xs"
  by (induction n v xs rule: insert_at.induct) simp_all

lemma filter_enumerate_index:
  "map snd (filter (\<lambda>(i, _). int i \<noteq> index) (enumerate n xs)) =
     (if int n \<le> index \<and> index < int n + int (length xs)
      then remove_at (nat index - n) xs else xs)"
proof (induction xs arbitrary: n)
  case Nil
  then show ?case by simp
next
  case (Cons x xs)
  show ?case
  proof (cases "int n = index")
    case True
    then have "map snd (filter (\<lambda>(i, _). int i \<noteq> index) (enumerate (Suc n) xs)) = xs"
      using Cons.IH [of "Suc n"] by simp
    with True show ?thesis by auto
  next
    case False
    show ?thesis
    proof (cases "int n < index \<and> index < int n + int (length (x # xs))")
      case True
      then have "nat index - n = Suc (nat index - Suc n)" by linarith
      with True False show ?thesis using Cons.IH [of "Suc n"] by simp
    next
      case False2: False
      with False show ?thesis using Cons.IH [of "Suc n"] by auto
    qed
  qed
qed

lemma filter_index_inside:
  "i < length xs \<Longrightarrow> filter_index xs (int i) = remove_at i xs"
  using filter_enumerate_index [of "int i" 0 xs] by (simp add: filter_index_def)

lemma filter_index_outside:
  "index < 0 \<or> int (length xs) \<le> index \<Longrightarrow> filter_index xs index = xs"
  using filter_enumerate_index [of index 0 xs] by (auto simp: filter_index_def)

lemma js_splice_remove:
  "a < length xs \<Longrightarrow> js_splice xs (int a) 1 [] = remove_at a xs"
  by (simp add: js_splice_def splice_start_def Let_def remove_at_take_drop min_def)

lemma js_splice_insert:
  "k \<le> length xs \<Longrightarrow> js_splice xs (int k) 0 [v] = insert_at k v xs"
  by (simp add: js_splice_def splice_start_def Let_def insert_at_take_drop min_def)

lemma js_set_inside: "i < length xs \<Longrightarrow> js_set xs (int i) v = xs[i := v]"
  by (simp add: js_set_def)

lemma js_get_inside: "i < length xs \<Longrightarrow> js_get xs (int i) = xs ! i"
  by (simp add: js_get_def)

lemma map_optional_Present:
  "map_optional f d = Present v \<Longrightarrow> \<exists>x. d = Present x \<and> v = f x"
  by (cases d) auto

lemma defaultValue_defined: "defaultValue s = Present v \<Longrightarrow> v \<noteq> Undefined"
  by (cases s) (auto dest: map_optional_Present)

lemma add_default_lookup:
  "map_of (add_default acc arg) k =
     (case defaultValue (shape arg) of
        Present v \<Rightarrow> if k = name arg then Some v else map_of acc k
      | _ \<Rightarrow> map_of acc k)"
  by (cases "defaultValue (shape arg)")
     (auto simp: add_default_def has_defaultValue_def read_defaultValue_def update_conv'
        dest: defaultValue_defined)

lemma defaults_step_other:
  "k \<notin> name ` set args \<Longrightarrow> map_of (foldl add_default acc args) k = map_of acc k"
  by (induction args arbitrary: acc) (auto simp: add_default_lookup split: optional.splits)

lemma defaults_step_member:
  "distinct (map name args) \<Longrightarrow> a \<in> set args \<Longrightarrow>
   map_of (foldl add_default acc args) (name a) =
     (case defaultValue (shape a) of Present v \<Rightarrow> Some v | _ \<Rightarrow> map_of acc (name a))"
proof (induction args arbitrary: acc)
  case Nil
  then show ?case by simp
next
  case (Cons x xs)
  show ?case
  proof (cases "a = x")
    case True
    then have "name a \<notin> name ` set xs"
      using Cons.prems by auto
    then have "map_of (foldl add_default (add_default acc x) xs) (name a) =
        map_of (add_default acc x) (name a)"
      by (rule defaults_step_other)
    with True show ?thesis
      by (simp add: add_default_lookup split: optional.splits)
  next
    case False
    then have mem: "a \<in> set xs"
      using Cons.prems by simp
    then have "name a \<in> name ` set xs"
      by (rule imageI)
    then have ne: "name a \<noteq> name x"
      using Cons.prems by auto
    from Cons.prems have "distinct (map name xs)" by simp
    from Cons.IH [OF this mem, of "add_default acc x"] ne show ?thesis
      by (simp add: add_default_lookup split: optional.splits)
  qed
qed

lemma getDefaultParams_member:
  "distinct (map name args) \<Longrightarrow> a \<in> set args \<Longrightarrow>
   map_of (getDefaultParams args) (name a) =
     (case defaultValue (shape a) of Present v \<Rightarrow> Some v | _ \<Rightarrow> None)"
  unfolding getDefaultParams_def
  by (simp add: defaults_step_member split: optional.splits)

lemma getDefaultParams_other:
  "k \<notin> name ` set args \<Longrightarrow> map_of (getDefaultParams args) k = None"
  unfolding getDefaultParams_def by (simp add: defaults_step_other)

lemma getDefaultValue_cases:
  "getDefaultValue arg =
     (case shape arg of
        Boolean Absent \<Rightarrow> Str ''''
      | Boolean PresentUndefined \<Rightarrow> Bool False
      | Boolean (Present b) \<Rightarrow> Bool b
      | Text (Present s) _ \<Rightarrow> Str s
      | Text _ _ \<Rightarrow> Str ''''
      | Array Absent \<Rightarrow> Str ''''
      | Array PresentUndefined \<Rightarrow> Arr []
      | Array (Present ss) \<Rightarrow> Arr ss
      | Dropdown _ _ \<Rightarrow> Str '''')"
  by (auto simp: getDefaultValue_def is_boolean_def is_text_def is_array_def
        has_defaultValue_def read_defaultValue_def nullish_or_def
        split: argument_shape.splits optional.splits)

lemma groupEditors_registerGroupEditor:
  "groupEditors (registerGroupEditor nm e ms) = (groupEditors ms)(nm \<mapsto> e)"
  by (simp add: registerGroupEditor_def)

lemma groupEditors_register_all:
  "groupEditors (register_all regs ms) = groupEditors ms ++ map_of (rev regs)"
proof (induction regs arbitrary: ms)
  case Nil
  show ?case by (simp add: register_all_def)
next
  case (Cons r regs)
  obtain nm e where r: "r = (nm, e)" by (cases r)
  have "register_all (r # regs) ms = register_all regs (registerGroupEditor nm e ms)"
    by (simp add: register_all_def r)
  then have "groupEditors (register_all (r # regs) ms) =
      groupEditors (registerGroupEditor nm e ms) ++ map_of (rev regs)"
    by (simp only: Cons.IH)
  also have "\<dots> = (groupEditors ms)(nm \<mapsto> e) ++ map_of (rev regs)"
    by (simp only: groupEditors_registerGroupEditor)
  also have "\<dots> = groupEditors ms ++ map_of (rev (r # regs))"
    by (auto simp: r fun_eq_iff map_add_def split: option.splits)
  finally show ?case .
qed

lemma moveDirective_from_end:
  assumes "S \<noteq> []"
  shows "moveDirective st S (int (length S)) Up =
     (st, Some (S[length S - 1 := None] @ [last S]))"
proof -
  from assms have pos: "0 < length S" by simp
  then have idx: "int (length S) - 1 = int (length S - 1)" by linarith
  have lt: "length S - 1 < length S" using pos by simp
  have fromNew: "js_get S (int (length S - 1)) = last S"
    using assms lt by (simp add: js_get_inside last_conv_nth)
  have fromOld: "js_get S (int (length S)) = None"
    by (simp add: js_get_def)
  have grow: "js_set S (int (length S)) (last S) = S @ [last S]"
    by (simp add: js_set_def)
  have "length S - 1 < length (S @ [last S])"
    by simp
  then have "js_set (S @ [last S]) (int (length S - 1)) None =
      (S @ [last S])[length S - 1 := None]"
    by (rule js_set_inside)
  then have shrink: "js_set (S @ [last S]) (int (length S - 1)) None =
      S[length S - 1 := None] @ [last S]"
    using lt by (simp only: list_update_append if_True)
  have "moveDirective st S (int (length S)) Up =
      (st, Some (js_set (js_set S (int (length S)) (js_get S (int (length S) - 1)))
                   (int (length S) - 1) (js_get S (int (length S)))))"
    using pos by (simp add: moveDirective_def Let_def)
  then show ?thesis
    by (simp only: idx fromNew fromOld grow shrink)
qed


section \<open>Properties of the handlers\<close>

text \<open>
  C1. Dropping onto position \<open>b\<close> while the element at position \<open>a\<close> is being dragged, both
  positions of the sequence: for \<open>a < b\<close> the reported sequence is the one obtained by
  removing the element at \<open>a\<close> and inserting it at position \<open>b - 1\<close>; for \<open>b < a\<close> it is
  inserted at position \<open>b\<close>. Dropping an element onto itself, or dropping while nothing
  is dragged, reports nothing. In every case both drag indices are cleared.
\<close>

theorem handleDrop_moves:
  "(draggedIndex st = None \<longrightarrow>
      handleDrop st S j = (st\<lparr>draggedIndex := None, dragOverIndex := None\<rparr>, None))
   \<and> (draggedIndex st = Some j \<longrightarrow>
      handleDrop st S j = (st\<lparr>draggedIndex := None, dragOverIndex := None\<rparr>, None))
   \<and> (draggedIndex st = Some (int a) \<and> a < length S \<and> b < length S \<and> a < b \<longrightarrow>
      handleDrop st S (int b) =
        (st\<lparr>draggedIndex := None, dragOverIndex := None\<rparr>,
         Some (insert_at (b - 1) (S ! a) (remove_at a S))))
   \<and> (draggedIndex st = Some (int a) \<and> a < length S \<and> b < length S \<and> b < a \<longrightarrow>
      handleDrop st S (int b) =
        (st\<lparr>draggedIndex := None, dragOverIndex := None\<rparr>,
         Some (insert_at b (S ! a) (remove_at a S))))"
proof (intro conjI impI)
  show "draggedIndex st = None \<Longrightarrow>
      handleDrop st S j = (st\<lparr>draggedIndex := None, dragOverIndex := None\<rparr>, None)"
    by (simp add: handleDrop_def)
  show "draggedIndex st = Some j \<Longrightarrow>
      handleDrop st S j = (st\<lparr>draggedIndex := None, dragOverIndex := None\<rparr>, None)"
    by (simp add: handleDrop_def)
next
  assume h: "draggedIndex st = Some (int a) \<and> a < length S \<and> b < length S \<and> a < b"
  then have "b - 1 \<le> length S - 1"
    by linarith
  with h have len: "b - 1 \<le> length (remove_at a S)"
    by (simp add: length_remove_at)
  have idx: "int b - 1 = int (b - 1)"
    using h by linarith
  have item: "js_get S (int a) = S ! a"
    using h by (simp add: js_get_inside)
  have removed: "js_splice S (int a) 1 [] = remove_at a S"
    by (rule js_splice_remove) (use h in simp)
  have inserted: "js_splice (remove_at a S) (int (b - 1)) 0 [S ! a] =
      insert_at (b - 1) (S ! a) (remove_at a S)"
    using len by (rule js_splice_insert)
  have "handleDrop st S (int b) =
        (st\<lparr>draggedIndex := None, dragOverIndex := None\<rparr>,
         Some (js_splice (js_splice S (int a) 1 []) (int b - 1) 0 [js_get S (int a)]))"
    using h by (simp add: handleDrop_def Let_def)
  then show "handleDrop st S (int b) =
        (st\<lparr>draggedIndex := None, dragOverIndex := None\<rparr>,
         Some (insert_at (b - 1) (S ! a) (remove_at a S)))"
    by (simp only: item removed idx inserted)
next
  assume h: "draggedIndex st = Some (int a) \<and> a < length S \<and> b < length S \<and> b < a"
  then have "b \<le> length S - 1"
    by linarith
  with h have len: "b \<le> length (remove_at a S)"
    by (simp add: length_remove_at)
  have item: "js_get S (int a) = S ! a"
    using h by (simp add: js_get_inside)
  have removed: "js_splice S (int a) 1 [] = remove_at a S"
    by (rule js_splice_remove) (use h in simp)
  have inserted: "js_splice (remove_at a S) (int b) 0 [S ! a] =
      insert_at b (S ! a) (remove_at a S)"
    using len by (rule js_splice_insert)
  have "handleDrop st S (int b) =
        (st\<lparr>draggedIndex := None, dragOverIndex := None\<rparr>,
         Some (js_splice (js_splice S (int a) 1 []) (int b) 0 [js_get S (int a)]))"
    using h by (simp add: handleDrop_def Let_def)
  then show "handleDrop st S (int b) =
        (st\<lparr>draggedIndex := None, dragOverIndex := None\<rparr>,
         Some (insert_at b (S ! a) (remove_at a S)))"
    by (simp only: item removed inserted)
qed

theorem handleDrop_moves_witness:
  "draggedIndex initial_state = None
   \<and> handleDrop initial_state [Some ''a'', Some ''b'', Some ''c'', Some ''d''] 2 =
       (initial_state, None)
   \<and> handleDrop (handleDragOver (handleDragStart initial_state 2) 2)
        [Some ''a'', Some ''b'', Some ''c'', Some ''d''] 2 = (initial_state, None)
   \<and> handleDrop (handleDragOver (handleDragStart initial_state 0) 2)
        [Some ''a'', Some ''b'', Some ''c'', Some ''d''] 2 =
       (initial_state, Some [Some ''b'', Some ''a'', Some ''c'', Some ''d''])
   \<and> handleDrop (handleDragOver (handleDragStart initial_state 3) 1)
        [Some ''a'', Some ''b'', Some ''c'', Some ''d''] 1 =
       (initial_state, Some [Some ''a'', Some ''d'', Some ''b'', Some ''c''])"
  using handleDrop_moves
          [of initial_state "[Some ''a'', Some ''b'', Some ''c'', Some ''d'']" 2 0 2]
        handleDrop_moves
          [of "handleDragOver (handleDragStart initial_state 2) 2"
              "[Some ''a'', Some ''b'', Some ''c'', Some ''d'']" 2 0 2]
        handleDrop_moves
          [of "handleDragOver (handleDragStart initial_state 0) 2"
              "[Some ''a'', Some ''b'', Some ''c'', Some ''d'']" 0 0 2]
        handleDrop_moves
          [of "handleDragOver (handleDragStart initial_state 3) 1"
              "[Some ''a'', Some ''b'', Some ''c'', Some ''d'']" 3 3 1]
  by (simp add: handleDragStart_def handleDragOver_def initial_state_def eval_nat_numeral)

text \<open>
  C2. The fallback for a field without a value. A boolean field declared without a
  \<^verbatim>\<open>defaultValue\<close> key, in an editor mounted without custom params, gets the empty string
  as its value, and its toggle is handed the empty string, not \<^verbatim>\<open>false\<close>. The same field
  with the key present and holding \<^verbatim>\<open>undefined\<close> gets \<^verbatim>\<open>false\<close>. Lemma
  \<open>getDefaultValue_cases\<close> lists the fallback for every variant.
\<close>

theorem boolean_without_default_gets_empty_string:
  "currentValue
     \<lparr>metadata = (), arguments =
        [\<lparr>name = ''verbose'', required = False, description = None, advanced = False,
          shape = Boolean Absent\<rparr>],
      updateDirective = (\<lambda>_. \<lparr>group = ([] :: unit list)\<rparr>)\<rparr>
     []
     \<lparr>name = ''verbose'', required = False, description = None, advanced = False,
      shape = Boolean Absent\<rparr> = Str ''''
   \<and> renderArgument
     \<lparr>metadata = (), arguments =
        [\<lparr>name = ''verbose'', required = False, description = None, advanced = False,
          shape = Boolean Absent\<rparr>],
      updateDirective = (\<lambda>_. \<lparr>group = ([] :: unit list)\<rparr>)\<rparr>
     []
     initial_editor_state
     \<lparr>name = ''verbose'', required = False, description = None, advanced = False,
      shape = Boolean Absent\<rparr> = Some (ToggleButtonGroup '''')
   \<and> currentValue
     \<lparr>metadata = (), arguments =
        [\<lparr>name = ''verbose'', required = False, description = None, advanced = False,
          shape = Boolean PresentUndefined\<rparr>],
      updateDirective = (\<lambda>_. \<lparr>group = ([] :: unit list)\<rparr>)\<rparr>
     []
     \<lparr>name = ''verbose'', required = False, description = None, advanced = False,
      shape = Boolean PresentUndefined\<rparr> = Bool False"
  by (simp add: currentValue_def renderArgument_def currentParams_def getDefaultParams_def
        add_default_def has_defaultValue_def read_defaultValue_def js_prop_def nullish_or_def
        getDefaultValue_cases initial_editor_state_def)

text \<open>
  C3. Moving the element at index \<open>i\<close> up targets \<open>i - 1\<close>, moving it down targets \<open>i + 1\<close>.
  For every integer index, a target outside the sequence makes the move do nothing: no
  report, state unchanged. For an index that is a position \<open>n\<close> of the sequence and whose
  target \<open>t\<close> is inside the sequence, the reported sequence has the same length, holds at
  \<open>n\<close> what was at \<open>t\<close> and at \<open>t\<close> what was at \<open>n\<close>, and is unchanged everywhere else.
\<close>

theorem moveDirective_swaps:
  "(i - 1 < 0 \<or> int (length S) \<le> i - 1 \<longrightarrow> moveDirective st S i Up = (st, None))
   \<and> (i + 1 < 0 \<or> int (length S) \<le> i + 1 \<longrightarrow> moveDirective st S i Down = (st, None))
   \<and> (n < length S \<and> t < length S \<and> (dir = Up \<and> int t = int n - 1 \<or> dir = Down \<and> int t = int n + 1) \<longrightarrow>
        (\<exists>R. moveDirective st S (int n) dir = (st, Some R)
           \<and> length R = length S
           \<and> R ! n = S ! t
           \<and> R ! t = S ! n
           \<and> (\<forall>j < length S. j \<noteq> n \<and> j \<noteq> t \<longrightarrow> R ! j = S ! j)))"
proof (intro conjI impI)
  show "i - 1 < 0 \<or> int (length S) \<le> i - 1 \<Longrightarrow> moveDirective st S i Up = (st, None)"
    by (auto simp: moveDirective_def)
  show "i + 1 < 0 \<or> int (length S) \<le> i + 1 \<Longrightarrow> moveDirective st S i Down = (st, None)"
    by (auto simp: moveDirective_def)
next
  assume h: "n < length S \<and> t < length S \<and>
    (dir = Up \<and> int t = int n - 1 \<or> dir = Down \<and> int t = int n + 1)"
  then have new: "(if dir = Up then int n - 1 else int n + 1) = int t"
    by auto
  have neq: "n \<noteq> t" using h by auto
  have "moveDirective st S (int n) dir = (st, Some (S[n := S ! t, t := S ! n]))"
    using h unfolding moveDirective_def new
    by (simp add: js_get_inside js_set_inside)
  with h neq show "\<exists>R. moveDirective st S (int n) dir = (st, Some R)
           \<and> length R = length S
           \<and> R ! n = S ! t
           \<and> R ! t = S ! n
           \<and> (\<forall>j < length S. j \<noteq> n \<and> j \<noteq> t \<longrightarrow> R ! j = S ! j)"
    by (simp add: nth_list_update)
qed

theorem moveDirective_swaps_witness:
  "((0::int) - 1 < 0 \<or> int (length [Some ''a'', Some ''b'', Some ''c'']) \<le> 0 - 1)
   \<and> ((2::int) + 1 < 0 \<or> int (length [Some ''a'', Some ''b'', Some ''c'']) \<le> 2 + 1)
   \<and> moveDirective initial_state [Some ''a'', Some ''b'', Some ''c''] 0 Up =
       (initial_state, None)
   \<and> moveDirective initial_state [Some ''a'', Some ''b'', Some ''c''] 2 Down =
       (initial_state, None)
   \<and> moveDirective initial_state [Some ''a'', Some ''b'', Some ''c''] 1 Up =
       (initial_state, Some [Some ''b'', Some ''a'', Some ''c''])
   \<and> moveDirective initial_state [Some ''a'', Some ''b'', Some ''c''] 1 Down =
       (initial_state, Some [Some ''a'', Some ''c'', Some ''b''])"
  using moveDirective_swaps
          [of 0 "[Some ''a'', Some ''b'', Some ''c'']" initial_state 1 0 Up]
        moveDirective_swaps
          [of 2 "[Some ''a'', Some ''b'', Some ''c'']" initial_state 1 2 Down]
  by (simp add: moveDirective_def js_get_def js_set_def)

text \<open>
  The restriction to positions of the sequence is needed. The handler tests only the
  target: from the index just behind the last element, moving up has its target inside
  the sequence, and the report is one element longer with \<^verbatim>\<open>undefined\<close> where the last
  element was; from index \<open>-1\<close>, moving down has target \<open>0\<close>, and the report has lost the
  first element. The buttons that call the handler are rendered once per element, so
  they pass positions of the sequence only.
\<close>

theorem moveDirective_swaps_counterexample:
  "(0::int) \<le> 3 - 1
   \<and> (3::int) - 1 < int (length [Some ''a'', Some ''b'', Some ''c''])
   \<and> moveDirective initial_state [Some ''a'', Some ''b'', Some ''c''] 3 Up =
       (initial_state, Some [Some ''a'', Some ''b'', None, Some ''c''])
   \<and> length [Some ''a'', Some ''b'', None, Some ''c''] \<noteq>
       length [Some ''a'', Some ''b'', Some ''c'']
   \<and> (0::int) \<le> - 1 + 1
   \<and> (- 1::int) + 1 < int (length [Some ''a'', Some ''b'', Some ''c''])
   \<and> moveDirective initial_state [Some ''a'', Some ''b'', Some ''c''] (- 1) Down =
       (initial_state, Some [None, Some ''b'', Some ''c''])
   \<and> Some ''a'' \<notin> set [None, Some ''b'', Some ''c'']"
  by (simp add: moveDirective_def js_get_def js_set_def)

text \<open>
  C4. With a pending delete at position \<open>i\<close> of the sequence, confirming reports the sequence
  without its element at \<open>i\<close>, one shorter, the elements before \<open>i\<close> in place and those after
  it moved down by one, and clears the pending index. Cancelling reports nothing and
  changes nothing except clearing the pending index.
\<close>

theorem confirmDelete_cancelDelete:
  "(deleteConfirmIndex st = Some (int i) \<and> i < length S \<longrightarrow>
      (\<exists>R. confirmDelete st S = (st\<lparr>deleteConfirmIndex := None\<rparr>, Some R)
         \<and> R = remove_at i S
         \<and> length R = length S - 1
         \<and> (\<forall>j < i. R ! j = S ! j)
         \<and> (\<forall>j. i \<le> j \<and> j < length R \<longrightarrow> R ! j = S ! Suc j)))
   \<and> cancelDelete st S = (st\<lparr>deleteConfirmIndex := None\<rparr>, None)"
  by (auto simp: confirmDelete_def removeDirective_def cancelDelete_def filter_index_inside
        length_remove_at nth_remove_at)

theorem confirmDelete_cancelDelete_witness:
  "deleteConfirmIndex (handleDeleteClick initial_state 1) = Some (int 1)
   \<and> (1::nat) < length [Some ''a'', Some ''b'', Some ''c'']
   \<and> confirmDelete (handleDeleteClick initial_state 1) [Some ''a'', Some ''b'', Some ''c''] =
       (initial_state, Some [Some ''a'', Some ''c''])
   \<and> cancelDelete (handleDeleteClick initial_state 1) [Some ''a'', Some ''b'', Some ''c''] =
       (initial_state, None)"
  using confirmDelete_cancelDelete
          [of "handleDeleteClick initial_state 1" 1 "[Some ''a'', Some ''b'', Some ''c'']"]
  by (simp add: handleDeleteClick_def initial_state_def)

text \<open>
  C5. Adding a directive without an index reports the sequence with the directive appended;
  adding at index \<open>0\<close> reports it prepended; adding at an index \<open>k\<close> from \<open>0\<close> to the length
  reports a sequence one longer that holds the directive at position \<open>k\<close> and from which
  removing position \<open>k\<close> gives back the original sequence, so that the old elements keep
  their order.
\<close>

theorem addDirective_inserts:
  "addDirective st S d None = (st\<lparr>shouldScrollToNew := True\<rparr>, Some (S @ [Some d]))
   \<and> addDirective st S d (Some 0) = (st\<lparr>shouldScrollToNew := (S = [])\<rparr>, Some (Some d # S))
   \<and> (k \<le> length S \<longrightarrow>
        (\<exists>R. addDirective st S d (Some (int k)) =
                (st\<lparr>shouldScrollToNew := (k = length S)\<rparr>, Some R)
           \<and> length R = Suc (length S)
           \<and> R ! k = Some d
           \<and> remove_at k R = S))"
proof (intro conjI impI)
  show "addDirective st S d None = (st\<lparr>shouldScrollToNew := True\<rparr>, Some (S @ [Some d]))"
    by (simp add: addDirective_def)
  have "js_splice S 0 0 [Some d] = Some d # S"
    using js_splice_insert [of 0 S "Some d"] by simp
  then show "addDirective st S d (Some 0) =
      (st\<lparr>shouldScrollToNew := (S = [])\<rparr>, Some (Some d # S))"
    by (simp add: addDirective_def)
next
  assume k: "k \<le> length S"
  then have scroll: "(length S \<le> k) = (k = length S)"
    by auto
  from k have "addDirective st S d (Some (int k)) =
      (st\<lparr>shouldScrollToNew := (k = length S)\<rparr>, Some (insert_at k (Some d) S))"
    by (simp add: addDirective_def js_splice_insert scroll)
  with k show "\<exists>R. addDirective st S d (Some (int k)) =
                (st\<lparr>shouldScrollToNew := (k = length S)\<rparr>, Some R)
           \<and> length R = Suc (length S)
           \<and> R ! k = Some d
           \<and> remove_at k R = S"
    by (simp add: length_insert_at nth_insert_at_same remove_at_insert_at)
qed

theorem addDirective_inserts_witness:
  "(1::nat) \<le> length [Some ''a'', Some ''b'']
   \<and> addDirective initial_state [Some ''a'', Some ''b''] ''z'' None =
       (initial_state\<lparr>shouldScrollToNew := True\<rparr>, Some [Some ''a'', Some ''b'', Some ''z''])
   \<and> addDirective initial_state [Some ''a'', Some ''b''] ''z'' (Some 0) =
       (initial_state, Some [Some ''z'', Some ''a'', Some ''b''])
   \<and> addDirective initial_state [Some ''a'', Some ''b''] ''z'' (Some 1) =
       (initial_state, Some [Some ''a'', Some ''z'', Some ''b''])
   \<and> addDirective initial_state [Some ''a'', Some ''b''] ''z'' (Some 2) =
       (initial_state\<lparr>shouldScrollToNew := True\<rparr>, Some [Some ''a'', Some ''b'', Some ''z''])"
  using addDirective_inserts [of initial_state "[Some ''a'', Some ''b'']" "''z''" 1]
  by (simp add: addDirective_def js_splice_def splice_start_def initial_state_def)

text \<open>
  C6. Mounting the simplified editor with empty custom params calls the schema's update
  function once, with the default params, and reports the group of the resulting
  directive together with those params; a later run of the effect calls nothing. When
  the field names are distinct, the default params map each field with a declared
  default to that default and hold no other key. For the schema with \<open>mode\<close> (dropdown,
  default \<open>fast\<close>), \<open>tags\<close> (array, default empty) and \<open>verbose\<close> (boolean, default false)
  the default params are \<open>mode = fast\<close>, \<open>tags = []\<close>, \<open>verbose = false\<close>.
\<close>

theorem mount_reports_defaults:
  "mount E [] =
     (\<lparr>showAdvanced = False, initializedRef = True\<rparr>,
      [UpdateDirective (getDefaultParams (arguments E)),
       OnGroupChange (group (updateDirective E (getDefaultParams (arguments E))))
         (getDefaultParams (arguments E))])
   \<and> autoInitialize E cp (fst (mount E [])) = (fst (mount E []), [])
   \<and> (distinct (map name (arguments E)) \<longrightarrow>
        (\<forall>a \<in> set (arguments E).
           map_of (getDefaultParams (arguments E)) (name a) =
             (case defaultValue (shape a) of Present v \<Rightarrow> Some v | _ \<Rightarrow> None))
        \<and> (\<forall>k. k \<notin> name ` set (arguments E) \<longrightarrow>
              map_of (getDefaultParams (arguments E)) k = None))
   \<and> getDefaultParams
        [\<lparr>name = ''mode'', required = r1, description = d1, advanced = a1,
           shape = Dropdown opts (Present ''fast'')\<rparr>,
         \<lparr>name = ''tags'', required = r2, description = d2, advanced = a2,
           shape = Array (Present [])\<rparr>,
         \<lparr>name = ''verbose'', required = r3, description = d3, advanced = a3,
           shape = Boolean (Present False)\<rparr>]
       = [(''mode'', Str ''fast''), (''tags'', Arr []), (''verbose'', Bool False)]"
proof (intro conjI impI ballI allI)
  show "mount E [] =
     (\<lparr>showAdvanced = False, initializedRef = True\<rparr>,
      [UpdateDirective (getDefaultParams (arguments E)),
       OnGroupChange (group (updateDirective E (getDefaultParams (arguments E))))
         (getDefaultParams (arguments E))])"
    by (simp add: mount_def autoInitialize_def initial_editor_state_def Let_def)
  show "autoInitialize E cp (fst (mount E [])) = (fst (mount E []), [])"
    by (simp add: mount_def autoInitialize_def initial_editor_state_def Let_def)
  show "getDefaultParams
        [\<lparr>name = ''mode'', required = r1, description = d1, advanced = a1,
           shape = Dropdown opts (Present ''fast'')\<rparr>,
         \<lparr>name = ''tags'', required = r2, description = d2, advanced = a2,
           shape = Array (Present [])\<rparr>,
         \<lparr>name = ''verbose'', required = r3, description = d3, advanced = a3,
           shape = Boolean (Present False)\<rparr>]
       = [(''mode'', Str ''fast''), (''tags'', Arr []), (''verbose'', Bool False)]"
    by (simp add: getDefaultParams_def add_default_def has_defaultValue_def
          read_defaultValue_def)
next
  fix a
  assume "distinct (map name (arguments E))" and "a \<in> set (arguments E)"
  then show "map_of (getDefaultParams (arguments E)) (name a) =
             (case defaultValue (shape a) of Present v \<Rightarrow> Some v | _ \<Rightarrow> None)"
    by (rule getDefaultParams_member)
next
  fix k
  assume "k \<notin> name ` set (arguments E)"
  then show "map_of (getDefaultParams (arguments E)) k = None"
    by (rule getDefaultParams_other)
qed

theorem mount_reports_defaults_witness:
  "distinct (map name (arguments example_editor))
   \<and> mount example_editor [] =
       (\<lparr>showAdvanced = False, initializedRef = True\<rparr>,
        [UpdateDirective [(''mode'', Str ''fast''), (''tags'', Arr []), (''verbose'', Bool False)],
         OnGroupChange [''mode=fast'', ''tags='', ''verbose=false'']
           [(''mode'', Str ''fast''), (''tags'', Arr []), (''verbose'', Bool False)]])
   \<and> map_of (getDefaultParams (arguments example_editor)) ''verbose'' = Some (Bool False)
   \<and> map_of (getDefaultParams (arguments example_editor)) ''other'' = None"
  using mount_reports_defaults [of example_editor "[]"]
  by (simp add: example_editor_def example_arguments_def getDefaultParams_def add_default_def
        has_defaultValue_def read_defaultValue_def)

text \<open>
  C7. Editing field \<open>k\<close> to \<open>v\<close> calls the update function with, and reports, the current
  params with \<open>k\<close> bound to \<open>v\<close>: every other key maps to what it mapped to before, and
  no key other than \<open>k\<close> is added. The directive list reported is the group of the
  directive that the update function returns for that merged mapping. The current
  params are the custom params whenever these are not empty.
\<close>

theorem updateParameter_merges:
  "\<exists>P'. updateParameter E cp k v =
           [UpdateDirective P', OnGroupChange (group (updateDirective E P')) P']
      \<and> map_of P' k = Some v
      \<and> (\<forall>k'. k' \<noteq> k \<longrightarrow> map_of P' k' = map_of (currentParams E cp) k')
      \<and> fst ` set P' = insert k (fst ` set (currentParams E cp))
      \<and> (cp \<noteq> [] \<longrightarrow> currentParams E cp = cp)"
  by (simp add: updateParameter_def Let_def update_conv' dom_update currentParams_def)

theorem updateParameter_merges_witness:
  "[(''mode'', Str ''slow'')] \<noteq> []
   \<and> updateParameter example_editor [] ''verbose'' (Bool True) =
       [UpdateDirective [(''mode'', Str ''fast''), (''tags'', Arr []), (''verbose'', Bool True)],
        OnGroupChange [''mode=fast'', ''tags='', ''verbose=true'']
          [(''mode'', Str ''fast''), (''tags'', Arr []), (''verbose'', Bool True)]]
   \<and> updateParameter example_editor [(''mode'', Str ''slow'')] ''tags'' (Arr [''x'']) =
       [UpdateDirective [(''mode'', Str ''slow''), (''tags'', Arr [''x''])],
        OnGroupChange [''mode=slow'', ''tags=x'']
          [(''mode'', Str ''slow''), (''tags'', Arr [''x''])]]"
  using updateParameter_merges [of example_editor "[]" "''verbose''" "Bool True"]
        updateParameter_merges
          [of example_editor "[(''mode'', Str ''slow'')]" "''tags''" "Arr [''x'']"]
  by (simp add: updateParameter_def Let_def currentParams_def example_editor_def
        example_arguments_def getDefaultParams_def add_default_def has_defaultValue_def
        read_defaultValue_def)

text \<open>
  C8. Looking up a name that was never registered gives nothing; looking up a name right
  after registering an editor under it gives that editor; and when a name is registered
  twice, with any registrations in between and any registrations of other names
  afterwards, the lookup gives the editor of the later registration.
\<close>

theorem getGroupEditor_lookup:
  "(nm \<notin> fst ` set regs \<longrightarrow>
      getGroupEditor (register_all regs (module_loaded m)) nm = None)
   \<and> getGroupEditor (registerGroupEditor nm e ms) nm = Some e
   \<and> (nm \<notin> fst ` set later \<longrightarrow>
        getGroupEditor
          (register_all later
             (registerGroupEditor nm e2
                (register_all between (registerGroupEditor nm e1 ms)))) nm = Some e2)"
proof (intro conjI impI)
  assume "nm \<notin> fst ` set regs"
  then have "map_of (rev regs) nm = None"
    by (simp add: map_of_eq_None_iff)
  then show "getGroupEditor (register_all regs (module_loaded m)) nm = None"
    by (simp add: getGroupEditor_def groupEditors_register_all module_loaded_def map_add_def)
next
  show "getGroupEditor (registerGroupEditor nm e ms) nm = Some e"
    by (simp add: getGroupEditor_def registerGroupEditor_def)
next
  assume "nm \<notin> fst ` set later"
  then have "map_of (rev later) nm = None"
    by (simp add: map_of_eq_None_iff)
  then show "getGroupEditor
          (register_all later
             (registerGroupEditor nm e2
                (register_all between (registerGroupEditor nm e1 ms)))) nm = Some e2"
    by (simp add: getGroupEditor_def groupEditors_register_all map_add_def
          groupEditors_registerGroupEditor)
qed

theorem getGroupEditor_lookup_witness:
  "''y'' \<notin> fst ` set [(''x'', example_editor)]
   \<and> ''x'' \<notin> fst ` set [(''y'', example_editor)]
   \<and> getGroupEditor (register_all [(''x'', example_editor)] (module_loaded ''group'')) ''y''
       = None
   \<and> getGroupEditor (registerGroupEditor ''x'' example_editor (module_loaded ''group'')) ''x''
       = Some example_editor
   \<and> getGroupEditor
        (register_all [(''y'', example_editor)]
           (registerGroupEditor ''x'' (example_editor\<lparr>metadata := ''later''\<rparr>)
              (register_all []
                 (registerGroupEditor ''x'' example_editor (module_loaded ''group''))))) ''x''
       = Some (example_editor\<lparr>metadata := ''later''\<rparr>)"
  using getGroupEditor_lookup
          [of "''y''" "[(''x'', example_editor)]" "''group''" example_editor
              "module_loaded ''group''" "[]" example_editor "[]" example_editor]
        getGroupEditor_lookup
          [of "''x''" "[]" "''group''" example_editor "module_loaded ''group''"
              "[(''y'', example_editor)]" "example_editor\<lparr>metadata := ''later''\<rparr>" "[]"
              example_editor]
  by (simp add: getGroupEditor_def register_all_def registerGroupEditor_def module_loaded_def)

text \<open>
  C9. Replacing the child at a position \<open>i\<close> of the sequence reports a sequence of the same
  length that holds the new directive at \<open>i\<close> and is unchanged at every other position.
\<close>

theorem handleDirectiveChange_replaces:
  "i < length S \<longrightarrow>
     (\<exists>R. handleDirectiveChange st S (int i) d = (st, Some R)
        \<and> length R = length S
        \<and> R ! i = Some d
        \<and> (\<forall>j < length S. j \<noteq> i \<longrightarrow> R ! j = S ! j))"
  by (simp add: handleDirectiveChange_def js_set_inside)

theorem handleDirectiveChange_replaces_witness:
  "(1::nat) < length [Some ''a'', Some ''b'', Some ''c'']
   \<and> handleDirectiveChange initial_state [Some ''a'', Some ''b'', Some ''c''] 1 ''z'' =
       (initial_state, Some [Some ''a'', Some ''z'', Some ''c''])"
  using handleDirectiveChange_replaces
          [of 1 "[Some ''a'', Some ''b'', Some ''c'']" initial_state "''z''"]
  by (simp add: handleDirectiveChange_def js_set_def)

text \<open>
  C10. Removing at an index outside the sequence, negative or not below the length, reports
  the sequence as it is and clears the pending delete.
\<close>

theorem removeDirective_outside:
  "i < 0 \<or> int (length S) \<le> i \<longrightarrow>
     removeDirective st S i = (st\<lparr>deleteConfirmIndex := None\<rparr>, Some S)"
  by (simp add: removeDirective_def filter_index_outside)

theorem removeDirective_outside_witness:
  "((5::int) < 0 \<or> int (length [Some ''a'', Some ''b'']) \<le> 5)
   \<and> removeDirective (handleDeleteClick initial_state 5) [Some ''a'', Some ''b''] 5 =
       (initial_state, Some [Some ''a'', Some ''b''])
   \<and> removeDirective (handleDeleteClick initial_state (- 1)) [Some ''a'', Some ''b''] (- 1) =
       (initial_state, Some [Some ''a'', Some ''b''])"
  using removeDirective_outside
          [of 5 "[Some ''a'', Some ''b'']" "handleDeleteClick initial_state 5"]
        removeDirective_outside
          [of "- 1" "[Some ''a'', Some ''b'']" "handleDeleteClick initial_state (- 1)"]
  by (simp add: handleDeleteClick_def initial_state_def)

end
